theory Spec2Isabelle
  imports Main "HOL-Library.Word"
begin

section \<open>Python values used by \<^verbatim>\<open>examples/srec2bin.py\<close>\<close>

text \<open>
  A Python \<^verbatim>\<open>str\<close> is modelled as an Isabelle \<^typ>\<open>string\<close>: one \<^typ>\<open>char\<close> per code
  point, for the code points 0..255.  The elements of a \<^verbatim>\<open>bytearray\<close> are bytes.
  The only exception the two functions can raise on lists of strings is
  \<^verbatim>\<open>ValueError\<close> (from \<^verbatim>\<open>int(_, base=16)\<close> and from \<^verbatim>\<open>bytearray.append\<close>).
\<close>

type_synonym byte = "8 word"

datatype pyerror = ValueError

datatype pyvalue = PyNone | PyInt int | PyBytes "byte list" | PyTuple "pyvalue list"

text \<open>The slice \<^verbatim>\<open>xs[i:j]\<close> for \<open>0 \<le> i \<le> j\<close>: it never raises, it is cut at the end.\<close>

definition pyslice :: "nat \<Rightarrow> nat \<Rightarrow> 'a list \<Rightarrow> 'a list" where
  "pyslice i j xs = take (j - i) (drop i xs)"

subsection \<open>The builtin \<^verbatim>\<open>int(s, base=16)\<close> on a string\<close>

text \<open>
  The digit value of a character in base 16 (\<^verbatim>\<open>0-9\<close>, \<^verbatim>\<open>a-f\<close>, \<^verbatim>\<open>A-F\<close>).
\<close>

definition hexdigit :: "char \<Rightarrow> nat option" where
  "hexdigit c =
     (let n = (of_char c :: nat) in
      if 48 \<le> n \<and> n \<le> 57 then Some (n - 48)
      else if 97 \<le> n \<and> n \<le> 102 then Some (n - 87)
      else if 65 \<le> n \<and> n \<le> 70 then Some (n - 55)
      else None)"

text \<open>
  The characters \<^verbatim>\<open>int\<close> skips as white space: tab, line feed, vertical tab, form
  feed, carriage return and space, and the two white-space code points above 127 that fit
  a \<^typ>\<open>char\<close> (U+0085 and U+00A0), which \<^verbatim>\<open>int\<close> turns into spaces before it parses.
  The separators U+001C to U+001F are not skipped, although \<^verbatim>\<open>str.isspace\<close> holds of them.
\<close>

definition is_space :: "char \<Rightarrow> bool" where
  "is_space c \<longleftrightarrow> (of_char c :: nat) \<in> {9, 10, 11, 12, 13, 32, 133, 160}"

text \<open>An optional sign.\<close>

fun strip_sign :: "string \<Rightarrow> int \<times> string" where
  "strip_sign [] = (1, [])"
| "strip_sign (c # cs) =
     (if c = CHR ''+'' then (1, cs)
      else if c = CHR ''-'' then (- 1, cs)
      else (1, c # cs))"

text \<open>An optional prefix \<^verbatim>\<open>0x\<close> or \<^verbatim>\<open>0X\<close>, after which one underscore is allowed.\<close>

fun strip_prefix16 :: "string \<Rightarrow> string" where
  "strip_prefix16 (a # b # cs) =
     (if a = CHR ''0'' \<and> (b = CHR ''x'' \<or> b = CHR ''X'')
      then (case cs of [] \<Rightarrow> [] | d # ds \<Rightarrow> if d = CHR ''_'' then ds else d # ds)
      else a # b # cs)"
| "strip_prefix16 cs = cs"

text \<open>
  The digits, with single underscores between them.  The flag says that the previous
  character was an underscore; two in a row, or one at the end of the digits, is an
  error.  The result is the value read and the rest of the string.
\<close>

fun scan_digits :: "bool \<Rightarrow> nat \<Rightarrow> string \<Rightarrow> (nat \<times> string) option" where
  "scan_digits prev_us acc [] = (if prev_us then None else Some (acc, []))"
| "scan_digits prev_us acc (c # cs) =
     (if c = CHR ''_'' then (if prev_us then None else scan_digits True acc cs)
      else (case hexdigit c of
              Some d \<Rightarrow> scan_digits False (16 * acc + d) cs
            | None \<Rightarrow> if prev_us then None else Some (acc, c # cs)))"

text \<open>
  \<^verbatim>\<open>int(s, base=16)\<close>: leading white space, sign, prefix, at least one digit, trailing
  white space, and nothing else.  \<open>None\<close> is the \<^verbatim>\<open>ValueError\<close>.  Python also
  accepts the decimal digits and the white space of Unicode above U+00FF; those code
  points are outside the strings modelled here, and the statements about \<^verbatim>\<open>int\<close> below
  are phrased by what it accepts and returns, not by the characters.
\<close>

definition int16 :: "string \<Rightarrow> int option" where
  "int16 s =
     (case strip_sign (dropWhile is_space s) of
        (sign, s1) \<Rightarrow>
          (case strip_prefix16 s1 of
             [] \<Rightarrow> None
           | c # cs \<Rightarrow>
               if c = CHR ''_'' \<or> hexdigit c = None then None
               else (case scan_digits False 0 (c # cs) of
                       None \<Rightarrow> None
                     | Some (n, rest) \<Rightarrow>
                         if dropWhile is_space rest = [] then Some (sign * int n)
                         else None)))"

subsection \<open>\<^verbatim>\<open>bytearray.append\<close>\<close>

text \<open>Appending an integer outside \<^verbatim>\<open>range(0, 256)\<close> raises \<^verbatim>\<open>ValueError\<close>.\<close>

definition bytearray_append :: "byte list \<Rightarrow> int \<Rightarrow> pyerror + byte list" where
  "bytearray_append binary v =
     (if 0 \<le> v \<and> v < 256 then Inr (binary @ [word_of_int v]) else Inl ValueError)"

section \<open>\<^verbatim>\<open>translate\<close>\<close>

text \<open>
  \<^verbatim>\<open>
  def translate(hexstr):
      binary = bytearray()
      for k in range(0, len(hexstr) // 2):
          binary.append(int(hexstr[2*k: 2*k+2], base=16))
      return binary
  \<close>
  The loop runs over the list of indices; the first exception ends it.
\<close>

fun translate_loop :: "string \<Rightarrow> nat list \<Rightarrow> byte list \<Rightarrow> pyerror + byte list" where
  "translate_loop hexstr [] binary = Inr binary"
| "translate_loop hexstr (k # ks) binary =
     (case int16 (pyslice (2 * k) (2 * k + 2) hexstr) of
        None \<Rightarrow> Inl ValueError
      | Some v \<Rightarrow>
          (case bytearray_append binary v of
             Inl e \<Rightarrow> Inl e
           | Inr binary' \<Rightarrow> translate_loop hexstr ks binary'))"

definition translate :: "string \<Rightarrow> pyerror + byte list" where
  "translate hexstr = translate_loop hexstr [0 ..< length hexstr div 2] []"

section \<open>\<^verbatim>\<open>parse\<close>\<close>

text \<open>
  \<^verbatim>\<open>
  def parse(srecords):
      binary = b""
      for srec in srecords:
          rectype = srec[:2]
          if rectype == "S0":
              addrlen = 2
          count = int(srec[2:4], base=16)
  \<close>
  The local variables are a record; a variable that is not bound yet is \<open>None\<close>.  A
  binding made by one line stays for the lines after it.  The function has no
  \<^verbatim>\<open>return\<close>: when the loop ends it returns \<^verbatim>\<open>None\<close>.
\<close>

record parse_locals =
  binary :: "byte list"
  rectype :: "string option"
  addrlen :: "int option"
  count :: "int option"

definition parse_init :: parse_locals where
  "parse_init = \<lparr>binary = [], rectype = None, addrlen = None, count = None\<rparr>"

definition parse_body :: "parse_locals \<Rightarrow> string \<Rightarrow> pyerror + parse_locals" where
  "parse_body st srec =
     (let st1 = st\<lparr>rectype := Some (pyslice 0 2 srec)\<rparr>;
          st2 = (if rectype st1 = Some ''S0'' then st1\<lparr>addrlen := Some 2\<rparr> else st1)
      in case int16 (pyslice 2 4 srec) of
           None \<Rightarrow> Inl ValueError
         | Some n \<Rightarrow> Inr (st2\<lparr>count := Some n\<rparr>))"

fun parse_loop :: "parse_locals \<Rightarrow> string list \<Rightarrow> pyerror + parse_locals" where
  "parse_loop st [] = Inr st"
| "parse_loop st (srec # srecords) =
     (case parse_body st srec of
        Inl e \<Rightarrow> Inl e
      | Inr st' \<Rightarrow> parse_loop st' srecords)"

definition parse_run :: "string list \<Rightarrow> pyerror + parse_locals" where
  "parse_run srecords = parse_loop parse_init srecords"

definition parse :: "string list \<Rightarrow> pyerror + pyvalue" where
  "parse srecords =
     (case parse_run srecords of
        Inl e \<Rightarrow> Inl e
      | Inr st \<Rightarrow> Inr PyNone)"

section \<open>Derived notions used in the statements\<close>

text \<open>
  The value of a string of two characters, written out: two digits; a digit and white
  space on either side; a sign and a digit.
\<close>

definition pair_value :: "char \<Rightarrow> char \<Rightarrow> int option" where
  "pair_value a b =
     (case (hexdigit a, hexdigit b) of
        (Some x, Some y) \<Rightarrow> Some (int (16 * x + y))
      | (Some x, None) \<Rightarrow> if is_space b then Some (int x) else None
      | (None, Some y) \<Rightarrow>
          if is_space a \<or> a = CHR ''+'' then Some (int y)
          else if a = CHR ''-'' then Some (- int y) else None
      | (None, None) \<Rightarrow> None)"


text \<open>
  What one turn of the loop of \<^verbatim>\<open>translate\<close> needs to go through, and the byte it
  appends then.
\<close>

definition chunk_ok :: "string \<Rightarrow> nat \<Rightarrow> bool" where
  "chunk_ok s k = (case int16 (pyslice (2 * k) (2 * k + 2) s) of None \<Rightarrow> False | Some v \<Rightarrow> 0 \<le> v \<and> v < 256)"

definition chunk_byte :: "string \<Rightarrow> nat \<Rightarrow> byte" where
  "chunk_byte s k = word_of_int (the (int16 (pyslice (2 * k) (2 * k + 2) s)))"

text \<open>
  \<^verbatim>\<open>str.upper()\<close> and \<^verbatim>\<open>str.lower()\<close> on a string of ASCII characters: the letters
  \<^verbatim>\<open>a-z\<close> and \<^verbatim>\<open>A-Z\<close> change case, every other character stays.
\<close>

definition ascii_upper :: "char \<Rightarrow> char" where
  "ascii_upper c =
     (let n = (of_char c :: nat) in if 97 \<le> n \<and> n \<le> 122 then char_of (n - 32) else c)"

definition ascii_lower :: "char \<Rightarrow> char" where
  "ascii_lower c =
     (let n = (of_char c :: nat) in if 65 \<le> n \<and> n \<le> 90 then char_of (n + 32) else c)"

definition upper :: "string \<Rightarrow> string" where
  "upper s = map ascii_upper s"

definition lower :: "string \<Rightarrow> string" where
  "lower s = map ascii_lower s"

text \<open>
  A string whose aligned chunks of two characters are pairs of hexadecimal digits, and the
  base-16 value of its \<open>k\<close>-th chunk.
\<close>

definition hex_pairs :: "string \<Rightarrow> bool" where
  "hex_pairs s \<longleftrightarrow>
     (\<forall>k<length s div 2. hexdigit (s ! (2 * k)) \<noteq> None \<and> hexdigit (s ! (2 * k + 1)) \<noteq> None)"

definition hex_pair_value :: "string \<Rightarrow> nat \<Rightarrow> nat" where
  "hex_pair_value s k = 16 * the (hexdigit (s ! (2 * k))) + the (hexdigit (s ! (2 * k + 1)))"

text \<open>The characters 2 and 3 of a line are accepted by \<^verbatim>\<open>int(_, base=16)\<close>.\<close>

definition count_field_ok :: "string \<Rightarrow> bool" where
  "count_field_ok srec \<longleftrightarrow> int16 (pyslice 2 4 srec) \<noteq> None"

section \<open>The format as the specification describes it\<close>

text \<open>
  Modelled from the spec: the record marker (section 4.3, step 1), which the code does not
  check.  The line starts with \<^verbatim>\<open>S\<close> followed by one decimal digit.
\<close>

definition spec_record_marker :: "string \<Rightarrow> bool" where
  "spec_record_marker line =
     (case line of
        a # b # rest \<Rightarrow> a = CHR ''S'' \<and> 48 \<le> (of_char b :: nat) \<and> (of_char b :: nat) \<le> 57
      | _ \<Rightarrow> False)"

text \<open>
  Modelled from the spec: the checksum engine (section 4.2), which is not in the
  repository.  The sum of the byte count, the address bytes and the data bytes modulo
  256, then its one's complement, \<open>255 - sum\<close>.
\<close>

definition spec_compute :: "byte \<Rightarrow> byte list \<Rightarrow> byte list \<Rightarrow> byte" where
  "spec_compute byte_count address_bytes data =
     word_of_nat (255 - sum_list (map unat (byte_count # address_bytes @ data)) mod 256)"

text \<open>
  Modelled from the spec: the encoder's hexadecimal output (sections 4.4 and 6), which is
  not in the repository.  A digit below 16 as an uppercase hexadecimal character.
\<close>

definition hex_char :: "nat \<Rightarrow> char" where
  "hex_char n = (if n < 10 then char_of (48 + n) else char_of (55 + n))"

text \<open>Modelled from the spec: a byte as a pair of uppercase hexadecimal characters.\<close>

definition hex_pair :: "byte \<Rightarrow> string" where
  "hex_pair b = [hex_char (unat b div 16), hex_char (unat b mod 16)]"

text \<open>Modelled from the spec: a sequence of bytes as hexadecimal pairs.\<close>

definition hex_bytes :: "byte list \<Rightarrow> string" where
  "hex_bytes bs = concat (map hex_pair bs)"

text \<open>
  Modelled from the spec: the address of a record on \<open>width\<close> bytes, the most
  significant byte first.
\<close>

definition address_bytes :: "nat \<Rightarrow> nat \<Rightarrow> byte list" where
  "address_bytes width address =
     map (\<lambda>i. word_of_nat (address div 256 ^ (width - 1 - i) mod 256)) [0 ..< width]"

text \<open>
  Modelled from the spec: the encoder of one record (section 4.4), which is not in the
  repository.  The line is \<^verbatim>\<open>S\<close>, the type digit, the byte count (address bytes, data
  bytes and the checksum byte), the address, the data and the checksum.
\<close>

definition spec_encode_record :: "nat \<Rightarrow> nat \<Rightarrow> nat \<Rightarrow> byte list \<Rightarrow> string" where
  "spec_encode_record digit width address data =
     (let ab = address_bytes width address;
          byte_count = (word_of_nat (length ab + length data + 1) :: byte)
      in CHR ''S'' # hex_char digit # hex_pair byte_count @ hex_bytes ab @ hex_bytes data @
         hex_pair (spec_compute byte_count ab data))"

text \<open>
  Modelled from the spec: the buffer cut into successive chunks of \<open>chunk_size\<close> bytes,
  each one a data record at its own address (section 4.6).
\<close>

function spec_data_records :: "nat \<Rightarrow> nat \<Rightarrow> nat \<Rightarrow> nat \<Rightarrow> byte list \<Rightarrow> string list" where
  "spec_data_records digit width chunk_size address buffer =
     (if chunk_size = 0 \<or> buffer = [] then []
      else spec_encode_record digit width address (take chunk_size buffer) #
           spec_data_records digit width chunk_size (address + chunk_size)
             (drop chunk_size buffer))"
  by pat_completeness auto
termination
  by (relation "measure (\<lambda>(digit, width, chunk_size, address, buffer). length buffer)") auto

declare spec_data_records.simps [simp del]

text \<open>
  Modelled from the spec: the smallest address width, in bytes, that can represent the
  address of every chunk (section 4.6).
\<close>

definition spec_address_width :: "nat \<Rightarrow> nat \<Rightarrow> nat \<Rightarrow> nat" where
  "spec_address_width base_address chunk_size len =
     (let last_chunk = base_address + ((len - 1) div chunk_size) * chunk_size
      in if last_chunk < 65536 then 2 else if last_chunk < 16777216 then 3 else 4)"

text \<open>
  Modelled from the spec: \<^verbatim>\<open>encode_buffer(buffer, base_address, chunk_size, with_header)\<close>
  (sections 4.6 and 6), which is not in the repository.  An optional S0 header record
  with the given payload, the data records (S1, S2 or S3 for a width of 2, 3 or 4 bytes)
  and one termination record (S9, S8 or S7) whose address is the base address.
\<close>

definition spec_encode_buffer ::
    "byte list \<Rightarrow> nat \<Rightarrow> nat \<Rightarrow> byte list option \<Rightarrow> string list" where
  "spec_encode_buffer buffer base_address chunk_size header =
     (let width = spec_address_width base_address chunk_size (length buffer)
      in (case header of None \<Rightarrow> [] | Some payload \<Rightarrow> [spec_encode_record 0 2 0 payload]) @
         spec_data_records (width - 1) width chunk_size base_address buffer @
         [spec_encode_record (11 - width) width base_address []])"

section \<open>Facts about \<^verbatim>\<open>int(s, base=16)\<close>\<close>

lemma hexdigit_special [simp]:
  "hexdigit (CHR ''_'') = None" "hexdigit (CHR ''+'') = None" "hexdigit (CHR ''-'') = None"
  "hexdigit (CHR ''x'') = None" "hexdigit (CHR ''X'') = None" "hexdigit (CHR ''0'') = Some 0"
  by (simp_all add: hexdigit_def)

lemma is_space_special [simp]:
  "\<not> is_space (CHR ''_'')" "\<not> is_space (CHR ''+'')" "\<not> is_space (CHR ''-'')"
  "\<not> is_space (CHR ''0'')"
  by (simp_all add: is_space_def)

lemma is_space_not_hex: "is_space c \<Longrightarrow> hexdigit c = None"
  by (auto simp: is_space_def hexdigit_def)

lemma hexdigit_less: "hexdigit c = Some d \<Longrightarrow> d < 16"
  by (auto simp: hexdigit_def Let_def split: if_splits)

lemma scan_one: "hexdigit b = Some y \<Longrightarrow> scan_digits False n [b] = Some (16 * n + y, [])"
  by auto

lemma int16_sp_l: "is_space a \<Longrightarrow> int16 [a, b] = pair_value a b"
proof -
  assume sa: "is_space a"
  then have ha: "hexdigit a = None" by (rule is_space_not_hex)
  show ?thesis
  proof (cases "hexdigit b")
    case None
    have "int16 [a, b] = None"
    proof (cases "is_space b")
      case True
      then show ?thesis using sa by (simp add: int16_def)
    next
      case False
      then show ?thesis using sa None by (simp add: int16_def)
    qed
    then show ?thesis using ha None sa by (simp add: pair_value_def is_space_not_hex)
  next
    case (Some y)
    then have nb: "\<not> is_space b" "b \<noteq> CHR ''+''" "b \<noteq> CHR ''-''" "b \<noteq> CHR ''_''"
      using is_space_not_hex by auto
    then have "int16 [a, b] = Some (int y)"
      using sa Some by (simp add: int16_def)
    then show ?thesis using ha Some sa by (simp add: pair_value_def)
  qed
qed

lemma int16_sign_l:
  assumes "a = CHR ''+'' \<or> a = CHR ''-''"
  shows "int16 [a, b] = pair_value a b"
proof (cases "hexdigit b")
  case None
  then show ?thesis using assms by (auto simp: int16_def pair_value_def)
next
  case (Some y)
  then have nb: "b \<noteq> CHR ''_''" by auto
  show ?thesis using assms Some nb by (auto simp: int16_def pair_value_def)
qed

lemma int16_nohex_l:
  assumes "\<not> is_space a" "a \<noteq> CHR ''+''" "a \<noteq> CHR ''-''" "hexdigit a = None"
  shows "int16 [a, b] = pair_value a b"
proof -
  have "strip_prefix16 [a, b] = [a, b]" using assms by auto
  then have "int16 [a, b] = None" using assms by (simp add: int16_def)
  then show ?thesis using assms by (simp add: pair_value_def split: option.splits)
qed

lemma int16_hex_l:
  assumes "hexdigit a = Some x"
  shows "int16 [a, b] = pair_value a b"
proof -
  have na: "\<not> is_space a" "a \<noteq> CHR ''+''" "a \<noteq> CHR ''-''" "a \<noteq> CHR ''_''"
    using assms is_space_not_hex by auto
  have s1: "strip_sign (dropWhile is_space [a, b]) = (1, [a, b])" using na by simp
  show ?thesis
  proof (cases "a = CHR ''0'' \<and> (b = CHR ''x'' \<or> b = CHR ''X'')")
    case True
    then have "strip_prefix16 [a, b] = []" by simp
    then have "int16 [a, b] = None" using s1 by (simp add: int16_def)
    moreover have "hexdigit b = None" "\<not> is_space b" using True by (auto simp: is_space_def)
    ultimately show ?thesis using assms by (simp add: pair_value_def)
  next
    case False
    then have s2: "strip_prefix16 [a, b] = [a, b]" by simp
    show ?thesis
    proof (cases "hexdigit b")
      case (Some y)
      then have "b \<noteq> CHR ''_''" by auto
      then show ?thesis using s1 s2 na assms Some
        by (simp add: int16_def pair_value_def)
    next
      case None
      show ?thesis
      proof (cases "b = CHR ''_''")
        case True
        then show ?thesis using s1 s2 na assms None
          by (simp add: int16_def pair_value_def)
      next
        case nu: False
        then show ?thesis using s1 s2 na assms None
          by (simp add: int16_def pair_value_def)
      qed
    qed
  qed
qed

lemma int16_pair: "int16 [a, b] = pair_value a b"
proof (cases "hexdigit a")
  case (Some x)
  then show ?thesis by (rule int16_hex_l)
next
  case None
  then show ?thesis
    using int16_sp_l [of a b] int16_sign_l [of a b] int16_nohex_l [of a b] by blast
qed


section \<open>Facts about \<^verbatim>\<open>translate\<close>\<close>

lemma slice_pair:
  assumes "k < length s div 2"
  shows "pyslice (2 * k) (2 * k + 2) s = [s ! (2 * k), s ! (2 * k + 1)]"
proof -
  have l: "2 * k + 1 < length s" using assms by arith
  then have l0: "2 * k < length s" by arith
  have "drop (2 * k) s = s ! (2 * k) # drop (Suc (2 * k)) s"
    using l0 by (simp add: Cons_nth_drop_Suc)
  moreover have "drop (Suc (2 * k)) s = s ! (Suc (2 * k)) # drop (Suc (Suc (2 * k))) s"
    using l by (simp add: Cons_nth_drop_Suc)
  ultimately show ?thesis by (simp add: pyslice_def)
qed

lemma translate_loop_ok:
  "list_all (chunk_ok s) ks \<Longrightarrow> translate_loop s ks acc = Inr (acc @ map (chunk_byte s) ks)"
  by (induction ks arbitrary: acc)
     (auto simp: chunk_ok_def chunk_byte_def bytearray_append_def split: option.splits)

lemma translate_loop_err:
  "\<not> list_all (chunk_ok s) ks \<Longrightarrow> translate_loop s ks acc = Inl ValueError"
  by (induction ks arbitrary: acc)
     (auto simp: chunk_ok_def bytearray_append_def split: option.splits)

lemma translate_cases:
  "translate s =
     (if list_all (chunk_ok s) [0 ..< length s div 2]
      then Inr (map (chunk_byte s) [0 ..< length s div 2]) else Inl ValueError)"
  using translate_loop_ok [of s "[0 ..< length s div 2]" "[]"]
        translate_loop_err [of s "[0 ..< length s div 2]" "[]"]
  by (simp add: translate_def)


lemma hexdigit_upper: "hexdigit (ascii_upper c) = hexdigit c"
  by (auto simp: hexdigit_def ascii_upper_def Let_def)

lemma hexdigit_lower: "hexdigit (ascii_lower c) = hexdigit c"
  by (auto simp: hexdigit_def ascii_lower_def Let_def)

lemma hex_chunk:
  assumes "k < length s div 2" "hexdigit (s ! (2 * k)) = Some x" "hexdigit (s ! (2 * k + 1)) = Some y"
  shows "int16 (pyslice (2 * k) (2 * k + 2) s) = Some (int (16 * x + y))"
proof -
  have "pyslice (2 * k) (2 * k + 2) s = [s ! (2 * k), s ! (2 * k + 1)]"
    using assms(1) by (rule slice_pair)
  then show ?thesis using assms(2,3) by (simp add: int16_pair pair_value_def)
qed

lemma hex_value_less:
  "hexdigit a = Some x \<Longrightarrow> hexdigit b = Some y \<Longrightarrow> 16 * x + y < 256"
  using hexdigit_less [of a x] hexdigit_less [of b y] by arith

lemma translate_hex:
  assumes "hex_pairs s"
  shows "translate s = Inr (map (\<lambda>k. word_of_nat (hex_pair_value s k)) [0 ..< length s div 2])"
proof -
  have ch: "int16 (pyslice (2 * k) (2 * k + 2) s) = Some (int (hex_pair_value s k))"
    if "k < length s div 2" for k
    using that assms hex_chunk [of k s] by (auto simp: hex_pairs_def hex_pair_value_def)
  have lt: "hex_pair_value s k < 256" if "k < length s div 2" for k
    using that assms hex_value_less [of "s ! (2 * k)" _ "s ! (2 * k + 1)"]
    by (auto simp: hex_pairs_def hex_pair_value_def)
  have ok: "list_all (chunk_ok s) [0 ..< length s div 2]"
    using ch lt by (simp add: list_all_iff chunk_ok_def)
  have "map (chunk_byte s) [0 ..< length s div 2] =
        map (\<lambda>k. word_of_nat (hex_pair_value s k)) [0 ..< length s div 2]"
    using ch by (simp add: chunk_byte_def)
  then show ?thesis using ok by (simp add: translate_cases)
qed

lemma unat_byte: "n < 256 \<Longrightarrow> unat (word_of_nat n :: byte) = n"
  by (simp add: unat_of_nat)

lemma hex_pairs_all: "\<forall>c\<in>set s. hexdigit c \<noteq> None \<Longrightarrow> hex_pairs s"
  by (simp add: hex_pairs_def)

lemma pair_value_range:
  assumes "pair_value a b = Some v"
  shows "v < 256" and "v < 0 \<longleftrightarrow> a = CHR ''-'' \<and> (\<exists>d. hexdigit b = Some d \<and> 0 < d)"
proof -
  show "v < 256"
    using assms hexdigit_less [of a] hexdigit_less [of b]
    by (auto simp: pair_value_def split: option.splits if_splits)
  show "v < 0 \<longleftrightarrow> a = CHR ''-'' \<and> (\<exists>d. hexdigit b = Some d \<and> 0 < d)"
    using assms by (auto simp: pair_value_def split: option.splits if_splits)
qed

lemma chunk_ok_value:
  assumes "k < length s div 2"
  shows "chunk_ok s k \<longleftrightarrow> (\<exists>v. int16 (pyslice (2 * k) (2 * k + 2) s) = Some v \<and> 0 \<le> v)"
proof -
  have sl: "pyslice (2 * k) (2 * k + 2) s = [s ! (2 * k), s ! (2 * k + 1)]"
    using assms by (rule slice_pair)
  show ?thesis
  proof (cases "pair_value (s ! (2 * k)) (s ! (2 * k + 1))")
    case None
    then show ?thesis unfolding chunk_ok_def sl int16_pair by simp
  next
    case (Some v)
    from pair_value_range(1) [OF Some] Some show ?thesis
      unfolding chunk_ok_def sl int16_pair by simp
  qed
qed

section \<open>Facts about \<^verbatim>\<open>parse\<close>\<close>

lemma parse_body_cases:
  "parse_body st srec =
     (case int16 (pyslice 2 4 srec) of
        None \<Rightarrow> Inl ValueError
      | Some n \<Rightarrow>
          Inr \<lparr>binary = binary st, rectype = Some (pyslice 0 2 srec),
               addrlen = (if pyslice 0 2 srec = ''S0'' then Some 2 else addrlen st),
               count = Some n\<rparr>)"
  by (simp add: parse_body_def Let_def split: option.splits)

lemma parse_loop_error:
  "\<not> list_all count_field_ok srecords \<Longrightarrow> parse_loop st srecords = Inl ValueError"
  by (induction srecords arbitrary: st)
     (auto simp: parse_body_cases count_field_ok_def split: option.splits)

lemma parse_loop_ok:
  "list_all count_field_ok srecords \<Longrightarrow> \<exists>st'. parse_loop st srecords = Inr st'"
  by (induction srecords arbitrary: st)
     (auto simp: parse_body_cases count_field_ok_def split: option.splits)

lemma parse_loop_addrlen:
  "parse_loop st srecords = Inr st' \<Longrightarrow>
     addrlen st' = (if ''S0'' \<in> set (map (pyslice 0 2) srecords) then Some 2 else addrlen st)"
proof (induction srecords arbitrary: st)
  case Nil
  then show ?case by simp
next
  case (Cons srec srecords)
  then show ?case
    by (cases "int16 (pyslice 2 4 srec)") (auto simp: parse_body_cases)
qed

lemma parse_loop_binary:
  "parse_loop st srecords = Inr st' \<Longrightarrow> binary st' = binary st"
proof (induction srecords arbitrary: st)
  case Nil
  then show ?case by simp
next
  case (Cons srec srecords)
  then show ?case
    by (cases "int16 (pyslice 2 4 srec)") (auto simp: parse_body_cases)
qed

lemma parse_cases:
  "parse srecords = (if list_all count_field_ok srecords then Inr PyNone else Inl ValueError)"
  using parse_loop_ok [of srecords parse_init] parse_loop_error [of srecords parse_init]
  by (auto simp: parse_def parse_run_def)

lemma parse_single:
  "parse [srec] = (case int16 (pyslice 2 4 srec) of None \<Rightarrow> Inl ValueError | Some n \<Rightarrow> Inr PyNone)"
  by (simp add: parse_cases count_field_ok_def split: option.splits)

lemma slice_count_append:
  "length m = 2 \<Longrightarrow> length c = 2 \<Longrightarrow> pyslice 2 4 (m @ c @ rest) = c"
  by (simp add: pyslice_def)

section \<open>Facts about the encoder of the specification\<close>

lemma of_char_hex_char:
  assumes "n < 16"
  shows "(of_char (hex_char n) :: nat) = (if n < 10 then 48 + n else 55 + n)"
proof (cases "n < 10")
  case True
  then have "(48 + n) mod 256 = 48 + n" by simp
  then show ?thesis using True by (simp add: hex_char_def)
next
  case False
  have "(55 + n) mod 256 = 55 + n" using assms by simp
  then show ?thesis using False by (simp add: hex_char_def)
qed

lemma hexdigit_hex_char:
  assumes "n < 16"
  shows "hexdigit (hex_char n) = Some n"
proof (cases "n < 10")
  case True
  then show ?thesis unfolding hexdigit_def of_char_hex_char [OF assms] by simp
next
  case False
  then show ?thesis using assms unfolding hexdigit_def of_char_hex_char [OF assms] by simp
qed


lemma unat_byte_less: "unat (b :: byte) < 256"
  using unsigned_less [of b, where ?'a = nat] by simp

lemma int16_hex_pair_nat: "int16 (hex_pair b) = Some (int (16 * (unat b div 16) + unat b mod 16))"
proof -
  have d: "unat b div 16 < 16" using unat_byte_less [of b] by arith
  have m: "unat b mod 16 < 16" by simp
  have "int16 (hex_pair b) = pair_value (hex_char (unat b div 16)) (hex_char (unat b mod 16))"
    by (simp only: hex_pair_def int16_pair)
  also have "\<dots> = Some (int (16 * (unat b div 16) + unat b mod 16))"
    unfolding pair_value_def hexdigit_hex_char [OF d] hexdigit_hex_char [OF m] by simp
  finally show ?thesis .
qed

lemma int16_hex_pair: "int16 (hex_pair b) = Some (uint b)"
proof -
  have "16 * (unat b div 16) + unat b mod 16 = unat b" by simp
  then show ?thesis unfolding int16_hex_pair_nat by (simp only: uint_nat)
qed
lemma length_hex_pair [simp]: "length (hex_pair b) = 2"
  by (simp add: hex_pair_def)

lemma count_field_encode_record: "count_field_ok (spec_encode_record digit width address data)"
proof -
  have "pyslice 2 4 (spec_encode_record digit width address data) =
        hex_pair (word_of_nat (length (address_bytes width address) + length data + 1))"
    by (simp add: spec_encode_record_def Let_def pyslice_def)
  then show ?thesis by (simp add: count_field_ok_def int16_hex_pair)
qed

lemma count_field_data_records:
  "list_all count_field_ok (spec_data_records digit width chunk_size address buffer)"
proof (induction digit width chunk_size address buffer rule: spec_data_records.induct)
  case (1 digit width chunk_size address buffer)
  show ?case
  proof (cases "chunk_size = 0 \<or> buffer = []")
    case True
    then show ?thesis by (subst spec_data_records.simps) simp
  next
    case False
    then show ?thesis
      using "1.IH" count_field_encode_record
      by (subst spec_data_records.simps) simp
  qed
qed

lemma parse_encode_buffer:
  "parse (spec_encode_buffer buffer base_address chunk_size header) = Inr PyNone"
proof -
  have "list_all count_field_ok (spec_encode_buffer buffer base_address chunk_size header)"
    by (simp add: spec_encode_buffer_def Let_def count_field_data_records
        count_field_encode_record split: option.splits)
  then show ?thesis by (simp add: parse_cases)
qed


lemma length_hex_bytes: "length (hex_bytes bs) = 2 * length bs"
  by (induction bs) (simp_all add: hex_bytes_def)

lemma hex_bytes_Cons: "hex_bytes (b # bs) = hex_pair b @ hex_bytes bs"
  by (simp add: hex_bytes_def)

lemma nth_hex_pair_append: "(hex_pair b @ xs) ! (2 + i) = xs ! i"
  using nth_append_length_plus [of "hex_pair b" xs i] by (simp only: length_hex_pair)

lemma hex_bytes_nth:
  "k < length bs \<Longrightarrow>
     hex_bytes bs ! (2 * k) = hex_char (unat (bs ! k) div 16) \<and>
     hex_bytes bs ! (2 * k + 1) = hex_char (unat (bs ! k) mod 16)"
proof (induction bs arbitrary: k)
  case Nil
  then show ?case by simp
next
  case (Cons b bs)
  show ?case
  proof (cases k)
    case 0
    then show ?thesis by (simp add: hex_bytes_Cons hex_pair_def)
  next
    case (Suc j)
    then have j: "j < length bs" using Cons.prems by simp
    have "2 * k = 2 + 2 * j" "2 * k + 1 = 2 + (2 * j + 1)" using Suc by simp_all
    moreover have "(b # bs) ! k = bs ! j" using Suc by simp
    ultimately show ?thesis using Cons.IH [OF j]
      by (simp only: hex_bytes_Cons nth_hex_pair_append)
  qed
qed

lemma translate_hex_bytes: "translate (hex_bytes bs) = Inr bs"
proof -
  let ?s = "hex_bytes bs"
  have n: "length ?s div 2 = length bs" by (simp add: length_hex_bytes)
  have dg: "hexdigit (?s ! (2 * k)) = Some (unat (bs ! k) div 16) \<and>
            hexdigit (?s ! (2 * k + 1)) = Some (unat (bs ! k) mod 16)" if "k < length bs" for k
  proof -
    have "unat (bs ! k) div 16 < 16" using unat_byte_less [of "bs ! k"] by arith
    moreover have "unat (bs ! k) mod 16 < 16" by simp
    ultimately show ?thesis using hex_bytes_nth [OF that] by (simp add: hexdigit_hex_char)
  qed
  have hp: "hex_pairs ?s" using dg by (simp add: hex_pairs_def n)
  have "word_of_nat (hex_pair_value ?s k) = bs ! k" if "k < length bs" for k
    using dg [OF that] by (simp add: hex_pair_value_def)
  then have "map (\<lambda>k. word_of_nat (hex_pair_value ?s k)) [0 ..< length bs] = map ((!) bs) [0 ..< length bs]"
    by simp
  then show ?thesis using translate_hex [OF hp] by (simp add: n map_nth)
qed

section \<open>The claims about \<^verbatim>\<open>parse\<close>\<close>

text \<open>
  Claim C1, as stated: decoding the line \<^verbatim>\<open>S1130000285F245F2212226E004F6E6EFE1BD7\<close>
  yields a record of type S1 with address 0, 16 data bytes and the checksum byte
  \<^verbatim>\<open>D7\<close>, which verifies.  It fails: \<^verbatim>\<open>parse\<close> returns \<^verbatim>\<open>None\<close>, not a record, and
  after the address the line holds 15 bytes, that is 14 data bytes and the last byte.
\<close>

theorem parse_example_line_counterexample:
  "parse [''S1130000285F245F2212226E004F6E6EFE1BD7''] = Inr PyNone \<and>
   translate (drop 8 ''S1130000285F245F2212226E004F6E6EFE1BD7'') =
     Inr [0x28, 0x5F, 0x24, 0x5F, 0x22, 0x12, 0x22, 0x6E, 0x00, 0x4F, 0x6E, 0x6E, 0xFE, 0x1B, 0xD7]"
  by code_simp

text \<open>
  Claim C1, amended: decoding the line with \<^verbatim>\<open>parse\<close> raises nothing and returns
  \<^verbatim>\<open>None\<close>; \<^verbatim>\<open>parse\<close> reads the record type \<^verbatim>\<open>S1\<close> and the declared byte count
  \<^verbatim>\<open>0x13\<close>, and no address, data or checksum.  The 17 bytes after the count field, as
  \<^verbatim>\<open>translate\<close> decodes them, are the address bytes \<^verbatim>\<open>00 00\<close>, 14 data bytes and the
  last byte \<^verbatim>\<open>D7\<close>.
\<close>

theorem parse_example_line:
  "parse [''S1130000285F245F2212226E004F6E6EFE1BD7''] = Inr PyNone \<and>
   parse_run [''S1130000285F245F2212226E004F6E6EFE1BD7''] =
     Inr \<lparr>binary = [], rectype = Some ''S1'', addrlen = None, count = Some 0x13\<rparr> \<and>
   translate (drop 4 ''S1130000285F245F2212226E004F6E6EFE1BD7'') =
     Inr [0x00, 0x00, 0x28, 0x5F, 0x24, 0x5F, 0x22, 0x12, 0x22, 0x6E, 0x00, 0x4F, 0x6E, 0x6E,
          0xFE, 0x1B, 0xD7]"
  by code_simp

text \<open>
  Claim C2, as stated: for every sequence of lines \<^verbatim>\<open>parse\<close> returns an address-space
  image with the entry point, or an error, and never nothing.  It fails: on the empty
  sequence and on a well-formed file of a data record and a termination record,
  \<^verbatim>\<open>parse\<close> returns \<^verbatim>\<open>None\<close>.
\<close>

theorem parse_returns_none_counterexample:
  "parse [] = Inr PyNone \<and> parse [''S1050000AABB95'', ''S9030000FC''] = Inr PyNone"
  by code_simp

text \<open>
  Claim C2, amended: for every sequence of lines \<^verbatim>\<open>parse\<close> returns \<^verbatim>\<open>None\<close>, or raises
  \<^verbatim>\<open>ValueError\<close> when the characters 2 and 3 of some line are not accepted by
  \<^verbatim>\<open>int(_, base=16)\<close>; it never returns an image or an entry point, and its local
  \<^verbatim>\<open>binary\<close> is still empty when the loop ends.
\<close>

theorem parse_none_or_error:
  "parse srecords =
     (if list_all (\<lambda>srec. int16 (pyslice 2 4 srec) \<noteq> None) srecords then Inr PyNone
      else Inl ValueError) \<and>
   (\<forall>st. parse_run srecords = Inr st \<longrightarrow> binary st = [])"
proof -
  have "binary st = []" if "parse_run srecords = Inr st" for st
    using parse_loop_binary [of parse_init srecords st] that
    by (simp add: parse_run_def parse_init_def)
  then show ?thesis using parse_cases [of srecords] unfolding count_field_ok_def by simp
qed

text \<open>A file that goes through, and a line whose count field is \<^verbatim>\<open>zz\<close>.\<close>

theorem parse_none_or_error_witness:
  "parse [''S1050000AABB95'', ''S9030000FC''] = Inr PyNone \<and>
   binary \<lparr>binary = [], rectype = Some ''S9'', addrlen = None, count = Some 3\<rparr> = [] \<and>
   parse [''S1zz''] = Inl ValueError"
proof -
  have a: "list_all (\<lambda>srec. int16 (pyslice 2 4 srec) \<noteq> None) [''S1050000AABB95'', ''S9030000FC'']"
    by code_simp
  have b: "\<not> list_all (\<lambda>srec. int16 (pyslice 2 4 srec) \<noteq> None) [''S1zz'']"
    by code_simp
  have r: "parse_run [''S1050000AABB95'', ''S9030000FC''] =
     Inr \<lparr>binary = [], rectype = Some ''S9'', addrlen = None, count = Some 3\<rparr>"
    by code_simp
  show ?thesis
    using a b r parse_none_or_error [of "[''S1050000AABB95'', ''S9030000FC'']"]
          parse_none_or_error [of "[''S1zz'']"]
    by simp
qed

text \<open>
  Claim C3, as stated: a line that does not start with \<^verbatim>\<open>S\<close> and one decimal digit
  fails to decode, with \<^verbatim>\<open>InvalidRecordMarker\<close>.  It fails at the line \<^verbatim>\<open>XY03\<close>, which
  \<^verbatim>\<open>parse\<close> takes without an error.
\<close>

theorem parse_marker_counterexample:
  "\<not> spec_record_marker ''XY03'' \<and> parse [''XY03''] = Inr PyNone"
  by code_simp

text \<open>
  Claim C3, amended: \<^verbatim>\<open>parse\<close> does not check the marker.  For every line that does not
  start with \<^verbatim>\<open>S\<close> and one decimal digit, decoding returns \<^verbatim>\<open>None\<close> when the characters
  2 and 3 of the line are accepted by \<^verbatim>\<open>int(_, base=16)\<close> and raises \<^verbatim>\<open>ValueError\<close>
  when they are not, as it does for a line that has the marker.
\<close>

theorem parse_ignores_marker:
  assumes "\<not> spec_record_marker line"
  shows "parse [line] =
           (case int16 (pyslice 2 4 line) of None \<Rightarrow> Inl ValueError | Some n \<Rightarrow> Inr PyNone)"
  by (rule parse_single)

theorem parse_ignores_marker_witness:
  "\<not> spec_record_marker ''XY03'' \<and> int16 (pyslice 2 4 ''XY03'') = Some 3 \<and>
   parse [''XY03''] = Inr PyNone"
proof -
  have m: "\<not> spec_record_marker ''XY03''" by code_simp
  have c: "int16 (pyslice 2 4 ''XY03'') = Some 3" by code_simp
  show ?thesis using parse_ignores_marker [OF m] m c by simp
qed

text \<open>
  Claim C4, as stated: the decoder selects the width of the address field from the
  record type (S0, S1, S9: 4 characters; S2, S8: 6; S3, S7: 8), and a line whose address
  field has another width fails with \<^verbatim>\<open>MalformedRecord\<close>.  It fails: after an S2 line
  \<^verbatim>\<open>addrlen\<close> is not bound at all, and the S1 line \<^verbatim>\<open>S10300\<close>, with two characters where
  the address should be, decodes without an error.
\<close>

theorem parse_addrlen_counterexample:
  "parse_run [''S208010000010203F0''] =
     Inr \<lparr>binary = [], rectype = Some ''S2'', addrlen = None, count = Some 8\<rparr> \<and>
   parse [''S10300''] = Inr PyNone"
  by code_simp

text \<open>
  Claim C4, amended: \<^verbatim>\<open>parse\<close> binds the address length for the record type S0 only, to
  2 bytes (4 hexadecimal characters).  When \<^verbatim>\<open>parse\<close> has gone through a sequence of
  lines, \<^verbatim>\<open>addrlen\<close> is 2 if one of the lines is an S0 line and is unbound otherwise; no
  other record type selects a width.  No line fails for the width of its address field:
  \<^verbatim>\<open>parse\<close> raises exactly when the characters 2 and 3 of some line are not accepted by
  \<^verbatim>\<open>int(_, base=16)\<close>.
\<close>

theorem parse_addrlen:
  "(\<forall>st. parse_run srecords = Inr st \<longrightarrow>
      addrlen st = (if ''S0'' \<in> set (map (pyslice 0 2) srecords) then Some 2 else None)) \<and>
   ((\<exists>e. parse_run srecords = Inl e) \<longleftrightarrow>
      (\<exists>srec\<in>set srecords. int16 (pyslice 2 4 srec) = None))"
proof -
  have "addrlen st = (if ''S0'' \<in> set (map (pyslice 0 2) srecords) then Some 2 else None)"
    if "parse_run srecords = Inr st" for st
    using parse_loop_addrlen [of parse_init srecords st] that
    by (simp add: parse_run_def parse_init_def)
  moreover have "(\<exists>e. parse_run srecords = Inl e) \<longleftrightarrow>
      (\<exists>srec\<in>set srecords. int16 (pyslice 2 4 srec) = None)"
  proof (cases "list_all count_field_ok srecords")
    case True
    then show ?thesis
      using parse_loop_ok [of srecords parse_init]
      by (auto simp: parse_run_def list_all_iff count_field_ok_def)
  next
    case False
    then show ?thesis
      using parse_loop_error [of srecords parse_init]
      by (auto simp: parse_run_def list_all_iff count_field_ok_def)
  qed
  ultimately show ?thesis by blast
qed

text \<open>
  A file with an S0 line between an S2 and an S1 line, a file of one S1 line, and an S1
  line whose count field is \<^verbatim>\<open>zz\<close>.
\<close>

theorem parse_addrlen_witness:
  "parse_run [''S208010000010203F0'', ''S00600004844521B'', ''S1050000AABB95''] =
     Inr \<lparr>binary = [], rectype = Some ''S1'', addrlen = Some 2, count = Some 5\<rparr> \<and>
   parse_run [''S1050000AABB95''] =
     Inr \<lparr>binary = [], rectype = Some ''S1'', addrlen = None, count = Some 5\<rparr> \<and>
   int16 (pyslice 2 4 ''S1zz0000'') = None \<and> parse_run [''S1zz0000''] = Inl ValueError"
proof -
  have r1: "parse_run [''S208010000010203F0'', ''S00600004844521B'', ''S1050000AABB95''] =
     Inr \<lparr>binary = [], rectype = Some ''S1'', addrlen = Some 2, count = Some 5\<rparr>"
    by code_simp
  have r2: "parse_run [''S1050000AABB95''] =
     Inr \<lparr>binary = [], rectype = Some ''S1'', addrlen = None, count = Some 5\<rparr>"
    by code_simp
  have z: "int16 (pyslice 2 4 ''S1zz0000'') = None" by code_simp
  have "addrlen \<lparr>binary = [], rectype = Some ''S1'', addrlen = Some 2, count = Some 5\<rparr> =
        (if ''S0'' \<in> set (map (pyslice 0 2)
            [''S208010000010203F0'', ''S00600004844521B'', ''S1050000AABB95''])
         then Some 2 else None)"
    using parse_addrlen [of "[''S208010000010203F0'', ''S00600004844521B'', ''S1050000AABB95'']"] r1
    by blast
  moreover have "\<exists>e. parse_run [''S1zz0000''] = Inl e"
    using parse_addrlen [of "[''S1zz0000'']"] z by simp
  then have "parse_run [''S1zz0000''] = Inl ValueError"
    by (metis pyerror.exhaust)
  ultimately show ?thesis using r1 r2 z by simp
qed

text \<open>
  Claim C5, as stated: a line with fewer hexadecimal pairs after the count field than
  the count declares fails with \<^verbatim>\<open>TruncatedRecord\<close>, one with more fails with
  \<^verbatim>\<open>TrailingGarbage\<close>.  It fails: a line that declares 5 bytes and has 4, and a line that
  declares 3 and has 5, both decode without an error.
\<close>

theorem parse_byte_count_counterexample:
  "int16 (pyslice 2 4 ''S10500000000'') = Some 5 \<and> length (drop 4 ''S10500000000'') div 2 = 4 \<and>
   parse [''S10500000000''] = Inr PyNone \<and>
   int16 (pyslice 2 4 ''S1030000FCFFFF'') = Some 3 \<and> length (drop 4 ''S1030000FCFFFF'') div 2 = 5 \<and>
   parse [''S1030000FCFFFF''] = Inr PyNone"
  by code_simp

text \<open>
  Claim C5, amended: \<^verbatim>\<open>parse\<close> does not compare the declared byte count with what the
  line holds.  For every line made of two marker characters, a count field of two
  characters that \<^verbatim>\<open>int(_, base=16)\<close> accepts, and any rest at all (fewer pairs than
  declared, more, or none), decoding raises nothing.
\<close>

theorem parse_ignores_length:
  assumes "length marker = 2" "length cnt = 2" "int16 cnt = Some n"
  shows "parse [marker @ cnt @ rest] = Inr PyNone"
  using assms by (simp add: parse_single slice_count_append)

theorem parse_ignores_length_witness:
  "length ''S1'' = 2 \<and> length ''05'' = 2 \<and> int16 ''05'' = Some 5 \<and>
   parse [''S1'' @ ''05'' @ ''00000000''] = Inr PyNone \<and> parse [''S1'' @ ''05'' @ []] = Inr PyNone"
proof -
  have c: "int16 ''05'' = Some 5" by code_simp
  have "parse [''S1'' @ ''05'' @ ''00000000''] = Inr PyNone"
    by (rule parse_ignores_length [OF _ _ c]) simp_all
  moreover have "parse [''S1'' @ ''05'' @ []] = Inr PyNone"
    by (rule parse_ignores_length [OF _ _ c]) simp_all
  ultimately show ?thesis using c by simp
qed

text \<open>
  Claim C6, as stated: for every record that decodes, 255 minus the sum modulo 256 of
  the byte count, the address bytes and the data bytes is the record's last byte.  It
  fails at the line \<^verbatim>\<open>S103000000\<close>: it decodes without an error, its last byte is
  \<^verbatim>\<open>00\<close>, and the checksum of its count and address bytes is \<^verbatim>\<open>FC\<close>.
\<close>

theorem parse_checksum_counterexample:
  "parse [''S103000000''] = Inr PyNone \<and>
   translate (drop 2 ''S103000000'') = Inr [0x03, 0x00, 0x00, 0x00] \<and>
   spec_compute 0x03 [0x00, 0x00] [] = 0xFC"
  by code_simp

text \<open>
  Claim C6, amended: \<^verbatim>\<open>parse\<close> computes and verifies no checksum.  For every line of at
  least four characters, what comes after them, and so the last byte of the line, does
  not change the outcome of decoding.
\<close>

theorem parse_ignores_checksum:
  assumes "4 \<le> length body"
  shows "parse [body @ checksum] = parse [body @ checksum']"
proof -
  have "pyslice 2 4 (body @ c) = pyslice 2 4 body" for c :: string
    using assms by (simp add: pyslice_def)
  then show ?thesis by (simp add: parse_single)
qed

theorem parse_ignores_checksum_witness:
  "4 \<le> length ''S1030000'' \<and> parse [''S1030000'' @ ''FC''] = Inr PyNone \<and>
   parse [''S1030000'' @ ''00''] = Inr PyNone"
proof -
  have l: "4 \<le> length ''S1030000''" by simp
  have p: "parse [''S1030000'' @ ''FC''] = Inr PyNone" by code_simp
  have "parse [''S1030000'' @ ''FC''] = parse [''S1030000'' @ ''00'']"
    using l by (rule parse_ignores_checksum)
  then show ?thesis using p by simp
qed

text \<open>
  Claim C7, as stated: decoding the lines that encode a buffer \<open>B\<close> at a base address
  gives an address space equal to \<open>B\<close>.  It fails for the buffer of the one byte
  \<^verbatim>\<open>01\<close> at address 0: \<^verbatim>\<open>parse\<close> returns \<^verbatim>\<open>None\<close> on its two lines.
\<close>

theorem parse_round_trip_counterexample:
  "spec_encode_buffer [0x01] 0 16 None = [''S104000001FA'', ''S9030000FC''] \<and>
   parse [''S104000001FA'', ''S9030000FC''] = Inr PyNone"
proof -
  have w: "spec_address_width 0 16 (length [0x01 :: byte]) = 2"
    by (simp add: spec_address_width_def)
  have r1: "spec_encode_record 1 2 0 [0x01] = ''S104000001FA''" by code_simp
  have r2: "spec_encode_record 9 2 0 [] = ''S9030000FC''" by code_simp
  have e: "spec_data_records 1 2 16 16 [] = []"
    by (subst spec_data_records.simps) simp
  have d: "spec_data_records 1 2 16 0 [0x01] = [''S104000001FA'']"
    using r1 e by (subst spec_data_records.simps) simp
  have "spec_encode_buffer [0x01] 0 16 None = [''S104000001FA'', ''S9030000FC'']"
    using d r2 unfolding spec_encode_buffer_def w Let_def by simp
  moreover have "parse [''S104000001FA'', ''S9030000FC''] = Inr PyNone" by code_simp
  ultimately show ?thesis by simp
qed

text \<open>
  Claim C7, amended: for every buffer \<open>B\<close>, base address, chunk size and header,
  \<^verbatim>\<open>parse\<close> on the encoded lines raises nothing and returns \<^verbatim>\<open>None\<close>, not an address
  space.  The round trip that holds is the one of \<^verbatim>\<open>translate\<close>: applied to the
  hexadecimal text of \<open>B\<close> it returns \<open>B\<close>.
\<close>

theorem encode_then_decode:
  "parse (spec_encode_buffer buffer base_address chunk_size header) = Inr PyNone \<and>
   translate (hex_bytes buffer) = Inr buffer"
  by (simp only: parse_encode_buffer translate_hex_bytes simp_thms)

section \<open>The claims about \<^verbatim>\<open>translate\<close>\<close>

text \<open>
  Claim C9.  For every string whose aligned chunks of two characters (positions \<open>2k\<close> and
  \<open>2k+1\<close>, for \<open>k < len(s) // 2\<close>) are pairs of hexadecimal digits, \<^verbatim>\<open>translate\<close>
  returns a bytearray of length \<open>len(s) // 2\<close> whose \<open>k\<close>-th byte is the base-16 value of
  the \<open>k\<close>-th chunk.  Nothing is asked of a last character without a partner: it is
  ignored.
\<close>

theorem translate_hex_pairs:
  assumes "\<forall>k<length s div 2.
             hexdigit (s ! (2 * k)) \<noteq> None \<and> hexdigit (s ! (2 * k + 1)) \<noteq> None"
  shows "\<exists>bs. translate s = Inr bs \<and> length bs = length s div 2 \<and>
           (\<forall>k<length s div 2.
              unat (bs ! k) =
                16 * the (hexdigit (s ! (2 * k))) + the (hexdigit (s ! (2 * k + 1))))"
proof -
  have hp: "hex_pairs s" using assms by (simp add: hex_pairs_def)
  have lt: "hex_pair_value s k < 256" if "k < length s div 2" for k
    using that assms hex_value_less [of "s ! (2 * k)" _ "s ! (2 * k + 1)"]
    by (auto simp: hex_pair_value_def)
  let ?bs = "map (\<lambda>k. word_of_nat (hex_pair_value s k) :: byte) [0 ..< length s div 2]"
  have "translate s = Inr ?bs" using hp by (rule translate_hex)
  moreover have "length ?bs = length s div 2" by simp
  moreover have "unat (?bs ! k) = hex_pair_value s k" if "k < length s div 2" for k
    using that lt [OF that] by (simp add: unat_byte)
  ultimately show ?thesis unfolding hex_pair_value_def by blast
qed

text \<open>The string \<^verbatim>\<open>1aF\<close>: one pair, and a third character that is ignored.\<close>

theorem translate_hex_pairs_witness:
  "hexdigit (CHR ''1'') \<noteq> None \<and> hexdigit (CHR ''a'') \<noteq> None \<and> translate ''1aF'' = Inr [26]"
proof -
  have h: "\<forall>k<length ''1aF'' div 2.
             hexdigit (''1aF'' ! (2 * k)) \<noteq> None \<and> hexdigit (''1aF'' ! (2 * k + 1)) \<noteq> None"
    by (simp add: hexdigit_def)
  have d: "hexdigit (CHR ''1'') = Some 1" "hexdigit (CHR ''a'') = Some 10"
    by (simp_all add: hexdigit_def)
  from translate_hex_pairs [OF h] obtain bs where
    t: "translate ''1aF'' = Inr bs" and n: "length bs = 1" and
    v0: "unat (bs ! 0) = 16 * the (hexdigit (''1aF'' ! (2 * 0))) + the (hexdigit (''1aF'' ! (2 * 0 + 1)))"
    by auto
  from v0 d have v: "unat (bs ! 0) = 26" by simp
  from n obtain b where bs: "bs = [b]" by (cases bs) auto
  with v have "unat b = unat (26 :: byte)" by simp
  then have "b = 26" by (simp only: word_unat_eq_iff)
  with t bs d show ?thesis by simp
qed

text \<open>
  Claim C8.  Decoding hexadecimal text does not depend on the case of the letters: for
  every string of hexadecimal digits, \<^verbatim>\<open>translate(s.upper())\<close> and
  \<^verbatim>\<open>translate(s.lower())\<close> are \<^verbatim>\<open>translate(s)\<close>.
\<close>

theorem translate_case_insensitive:
  assumes "\<forall>c\<in>set s. hexdigit c \<noteq> None"
  shows "translate (upper s) = translate s \<and> translate (lower s) = translate s"
proof -
  have "hex_pairs s" using assms by (rule hex_pairs_all)
  moreover have "hex_pairs (upper s)" "hex_pairs (lower s)"
    using assms by (simp_all add: hex_pairs_def upper_def lower_def hexdigit_upper hexdigit_lower)
  moreover have "hex_pair_value (upper s) k = hex_pair_value s k" 
     "hex_pair_value (lower s) k = hex_pair_value s k" if "k < length s div 2" for k
    using that by (simp_all add: hex_pair_value_def upper_def lower_def hexdigit_upper hexdigit_lower)
  ultimately show ?thesis by (simp add: translate_hex upper_def lower_def)
qed


theorem translate_case_insensitive_witness:
  "hexdigit (CHR ''a'') \<noteq> None \<and> hexdigit (CHR ''B'') \<noteq> None \<and>
   upper ''aB'' = ''AB'' \<and> lower ''aB'' = ''ab'' \<and>
   translate ''AB'' = translate ''aB'' \<and> translate ''ab'' = translate ''aB''"
proof -
  have h: "\<forall>c\<in>set ''aB''. hexdigit c \<noteq> None" by (simp add: hexdigit_def)
  have u: "upper ''aB'' = ''AB''" "lower ''aB'' = ''ab''"
    by code_simp+
  have d: "hexdigit (CHR ''a'') \<noteq> None" "hexdigit (CHR ''B'') \<noteq> None"
    by (simp_all add: hexdigit_def)
  show ?thesis using translate_case_insensitive [OF h] u d by simp
qed

text \<open>
  Claim C10, as stated: \<^verbatim>\<open>translate(s)\<close> raises if and only if some aligned chunk of two
  characters is not accepted by \<^verbatim>\<open>int(_, 16)\<close>.  It fails at the string \<^verbatim>\<open>-1\<close>: its one
  chunk is accepted by \<^verbatim>\<open>int(_, 16)\<close>, with the value \<open>-1\<close>, and \<^verbatim>\<open>translate\<close> raises
  all the same, since \<^verbatim>\<open>bytearray.append\<close> refuses a negative number.
\<close>

theorem translate_raises_counterexample:
  "length ''-1'' div 2 = 1 \<and> int16 (pyslice 0 2 ''-1'') = Some (- 1) \<and>
   translate ''-1'' = Inl ValueError"
  by code_simp

text \<open>
  Claim C10, amended: \<^verbatim>\<open>translate(s)\<close> raises (a \<^verbatim>\<open>ValueError\<close>) if and only if some
  aligned chunk of two characters either is not accepted by \<^verbatim>\<open>int(_, 16)\<close> or is accepted
  with a negative value, which \<^verbatim>\<open>bytearray.append\<close> refuses.
\<close>

theorem translate_raises_iff:
  "translate s = Inl ValueError \<longleftrightarrow>
     (\<exists>k<length s div 2.
        int16 (pyslice (2 * k) (2 * k + 2) s) = None \<or>
        (\<exists>v. int16 (pyslice (2 * k) (2 * k + 2) s) = Some v \<and> v < 0))"
proof -
  have "translate s = Inl ValueError \<longleftrightarrow> \<not> list_all (chunk_ok s) [0 ..< length s div 2]"
    by (simp add: translate_cases)
  also have "\<dots> \<longleftrightarrow> (\<exists>k<length s div 2. \<not> chunk_ok s k)"
    by (auto simp: list_all_iff)
  also have "\<dots> \<longleftrightarrow> (\<exists>k<length s div 2.
        \<not> (\<exists>v. int16 (pyslice (2 * k) (2 * k + 2) s) = Some v \<and> 0 \<le> v))"
    using chunk_ok_value [of _ s] by blast
  also have "\<dots> \<longleftrightarrow> (\<exists>k<length s div 2.
        int16 (pyslice (2 * k) (2 * k + 2) s) = None \<or>
        (\<exists>v. int16 (pyslice (2 * k) (2 * k + 2) s) = Some v \<and> v < 0))"
    by (metis not_le option.exhaust option.inject option.distinct(1))
  finally show ?thesis .
qed

text \<open>
  The second chunk of the string \<^verbatim>\<open>7f-1\<close> has the value \<open>-1\<close>; the string \<^verbatim>\<open>7f01\<close> goes
  through.
\<close>

theorem translate_raises_iff_witness:
  "int16 (pyslice 2 4 ''7f-1'') = Some (- 1) \<and> translate ''7f-1'' = Inl ValueError \<and>
   translate ''7f01'' = Inr [0x7F, 0x01]"
proof -
  have c: "int16 (pyslice (2 * 1) (2 * 1 + 2) ''7f-1'') = Some (- 1)" by code_simp
  have k: "(1::nat) < length ''7f-1'' div 2" by simp
  have "\<exists>k<length ''7f-1'' div 2.
          int16 (pyslice (2 * k) (2 * k + 2) ''7f-1'') = None \<or>
          (\<exists>v. int16 (pyslice (2 * k) (2 * k + 2) ''7f-1'') = Some v \<and> v < 0)"
    using c k by (intro exI [of _ 1]) simp
  then have t: "translate ''7f-1'' = Inl ValueError"
    by (simp only: translate_raises_iff [of "''7f-1''"])
  have c2: "int16 (pyslice 2 4 ''7f-1'') = Some (- 1)" by code_simp
  have "translate ''7f01'' = Inr [0x7F, 0x01]" by code_simp
  then show ?thesis using t c2 by simp
qed


end
